theory Spec2Isabelle
  imports Main "HOL-Library.Word"
begin

unbundle bit_operations_syntax

section \<open>The hash accumulator: \<^verbatim>\<open>hashlib.md5()\<close>\<close>

text \<open>
  \<^verbatim>\<open>md5.py\<close> creates one accumulator with \<^verbatim>\<open>hashlib.md5()\<close>, feeds it with
  \<^verbatim>\<open>update(chunk)\<close> and reads it with \<^verbatim>\<open>hexdigest()\<close>. The accumulator is the
  streaming MD5 context of RFC 1321: four 32-bit registers, the bytes that do not yet
  fill a 64-byte block, and the number of bytes fed so far. Bytes are \<open>8 word\<close>; the
  32-bit registers are naturals with the reduction modulo \<open>2 ^ 32\<close> written out.
\<close>

type_synonym byte = "8 word"
type_synonym u32 = nat
type_synonym md5_regs = "u32 \<times> u32 \<times> u32 \<times> u32"

definition add32 :: "u32 \<Rightarrow> u32 \<Rightarrow> u32" where
  "add32 x y = (x + y) mod 2 ^ 32"

definition not32 :: "u32 \<Rightarrow> u32" where
  "not32 x = 4294967295 - x mod 2 ^ 32"

definition rotl32 :: "u32 \<Rightarrow> nat \<Rightarrow> u32" where
  "rotl32 x s = (x * 2 ^ s) mod 2 ^ 32 + (x mod 2 ^ 32) div 2 ^ (32 - s)"

definition md5_F :: "u32 \<Rightarrow> u32 \<Rightarrow> u32 \<Rightarrow> u32" where
  "md5_F x y z = (x AND y) OR (not32 x AND z)"

definition md5_G :: "u32 \<Rightarrow> u32 \<Rightarrow> u32 \<Rightarrow> u32" where
  "md5_G x y z = (x AND z) OR (y AND not32 z)"

definition md5_H :: "u32 \<Rightarrow> u32 \<Rightarrow> u32 \<Rightarrow> u32" where
  "md5_H x y z = x XOR y XOR z"

definition md5_I :: "u32 \<Rightarrow> u32 \<Rightarrow> u32 \<Rightarrow> u32" where
  "md5_I x y z = y XOR (x OR not32 z)"

text \<open>The sine table and the per-step rotation amounts of RFC 1321.\<close>

definition md5_T :: "u32 list" where
  "md5_T =
     [0xd76aa478, 0xe8c7b756, 0x242070db, 0xc1bdceee,
      0xf57c0faf, 0x4787c62a, 0xa8304613, 0xfd469501,
      0x698098d8, 0x8b44f7af, 0xffff5bb1, 0x895cd7be,
      0x6b901122, 0xfd987193, 0xa679438e, 0x49b40821,
      0xf61e2562, 0xc040b340, 0x265e5a51, 0xe9b6c7aa,
      0xd62f105d, 0x02441453, 0xd8a1e681, 0xe7d3fbc8,
      0x21e1cde6, 0xc33707d6, 0xf4d50d87, 0x455a14ed,
      0xa9e3e905, 0xfcefa3f8, 0x676f02d9, 0x8d2a4c8a,
      0xfffa3942, 0x8771f681, 0x6d9d6122, 0xfde5380c,
      0xa4beea44, 0x4bdecfa9, 0xf6bb4b60, 0xbebfbc70,
      0x289b7ec6, 0xeaa127fa, 0xd4ef3085, 0x04881d05,
      0xd9d4d039, 0xe6db99e5, 0x1fa27cf8, 0xc4ac5665,
      0xf4292244, 0x432aff97, 0xab9423a7, 0xfc93a039,
      0x655b59c3, 0x8f0ccc92, 0xffeff47d, 0x85845dd1,
      0x6fa87e4f, 0xfe2ce6e0, 0xa3014314, 0x4e0811a1,
      0xf7537e82, 0xbd3af235, 0x2ad7d2bb, 0xeb86d391]"

definition md5_S :: "nat list" where
  "md5_S =
     [7, 12, 17, 22, 7, 12, 17, 22, 7, 12, 17, 22, 7, 12, 17, 22,
      5, 9, 14, 20, 5, 9, 14, 20, 5, 9, 14, 20, 5, 9, 14, 20,
      4, 11, 16, 23, 4, 11, 16, 23, 4, 11, 16, 23, 4, 11, 16, 23,
      6, 10, 15, 21, 6, 10, 15, 21, 6, 10, 15, 21, 6, 10, 15, 21]"

definition round_fn :: "nat \<Rightarrow> u32 \<Rightarrow> u32 \<Rightarrow> u32 \<Rightarrow> u32" where
  "round_fn i b c d =
     (if i < 16 then md5_F b c d else if i < 32 then md5_G b c d
      else if i < 48 then md5_H b c d else md5_I b c d)"

definition msg_index :: "nat \<Rightarrow> nat" where
  "msg_index i =
     (if i < 16 then i else if i < 32 then (5 * i + 1) mod 16
      else if i < 48 then (3 * i + 5) mod 16 else (7 * i) mod 16)"

fun md5_step :: "u32 list \<Rightarrow> nat \<Rightarrow> md5_regs \<Rightarrow> md5_regs" where
  "md5_step X i (a, b, c, d) =
     (d,
      add32 b (rotl32 (add32 (add32 (add32 a (round_fn i b c d)) (md5_T ! i))
                 (X ! msg_index i)) (md5_S ! i)),
      b, c)"

text \<open>Little-endian decoding of a block into sixteen words, and encoding of a word.\<close>

fun le32 :: "byte list \<Rightarrow> u32" where
  "le32 [] = 0"
| "le32 (b # bs) = unat b + 256 * le32 bs"

definition decode :: "byte list \<Rightarrow> u32 list" where
  "decode block = map (\<lambda>i. le32 (take 4 (drop (4 * i) block))) [0..<16]"

definition le32_bytes :: "u32 \<Rightarrow> byte list" where
  "le32_bytes x =
     [of_nat (x mod 256), of_nat (x div 256 mod 256),
      of_nat (x div 65536 mod 256), of_nat (x div 16777216 mod 256)]"

definition le64_bytes :: "nat \<Rightarrow> byte list" where
  "le64_bytes x = le32_bytes (x mod 2 ^ 32) @ le32_bytes (x div 2 ^ 32 mod 2 ^ 32)"

definition md5_transform :: "md5_regs \<Rightarrow> byte list \<Rightarrow> md5_regs" where
  "md5_transform r block =
     (case r of (a, b, c, d) \<Rightarrow>
        (case fold (md5_step (decode block)) [0..<64] r of (a', b', c', d') \<Rightarrow>
           (add32 a a', add32 b b', add32 c c', add32 d d')))"

text \<open>Consume the full 64-byte blocks of the pending bytes; what is left stays buffered.\<close>

function md5_blocks :: "md5_regs \<Rightarrow> byte list \<Rightarrow> md5_regs \<times> byte list" where
  "md5_blocks r bs =
     (if length bs < 64 then (r, bs)
      else md5_blocks (md5_transform r (take 64 bs)) (drop 64 bs))"
  by pat_completeness auto
termination
  by (relation "measure (\<lambda>(r, bs). length bs)") auto

declare md5_blocks.simps [simp del]

record md5_ctx =
  regs :: md5_regs
  buffer :: "byte list"
  nbytes :: nat

definition md5_new :: md5_ctx where
  "md5_new = \<lparr>regs = (0x67452301, 0xefcdab89, 0x98badcfe, 0x10325476),
              buffer = [], nbytes = 0\<rparr>"

definition md5_update :: "md5_ctx \<Rightarrow> byte list \<Rightarrow> md5_ctx" where
  "md5_update h data =
     (case md5_blocks (regs h) (buffer h @ data) of
        (r, rest) \<Rightarrow> \<lparr>regs = r, buffer = rest, nbytes = nbytes h + length data\<rparr>)"

text \<open>
  Padding: one byte \<open>0x80\<close>, zeros up to 56 modulo 64, then the length of the message in
  bits as a 64-bit little-endian number.
\<close>

definition md5_padding :: "nat \<Rightarrow> byte list" where
  "md5_padding n =
     [128] @ replicate ((119 - n mod 64) mod 64) 0 @ le64_bytes ((8 * n) mod 2 ^ 64)"

definition md5_digest :: "md5_ctx \<Rightarrow> byte list" where
  "md5_digest h =
     (case md5_blocks (regs h) (buffer h @ md5_padding (nbytes h)) of
        ((a, b, c, d), rest) \<Rightarrow> le32_bytes a @ le32_bytes b @ le32_bytes c @ le32_bytes d)"

definition hex_digit :: "nat \<Rightarrow> char" where
  "hex_digit n = ''0123456789abcdef'' ! n"

definition hex_byte :: "byte \<Rightarrow> string" where
  "hex_byte b = [hex_digit (unat b div 16), hex_digit (unat b mod 16)]"

definition hexdigest :: "md5_ctx \<Rightarrow> string" where
  "hexdigest h = concat (map hex_byte (md5_digest h))"

section \<open>Files, arguments and the process\<close>

text \<open>
  What the script sees of its environment: \<^verbatim>\<open>sys.argv\<close> and the file system. A path
  names a regular file (its bytes, and optionally the number of reads that succeed
  before the device fails), a directory, a file that may not be opened for reading, or
  nothing. The exceptions are the ones the interpreter raises at these places;
  \<open>OSError\<close> stands for a failed read or a failed write. Every file here has finite
  content: a device that never reaches its end, on which the read loop would not return,
  has no value in \<open>node\<close>, and what is proved below about all runs is about runs on
  files of finite content.
\<close>

datatype exn = IndexError | FileNotFoundError | IsADirectoryError | PermissionError | OSError

datatype node = Regular "byte list" "nat option" | Directory | Unreadable

record proc =
  argv :: "string list"
  fs :: "string \<Rightarrow> node option"

text \<open>An open binary file object: the bytes not yet read and the reads left before a fault.\<close>

record fileobj =
  unread :: "byte list"
  faults :: "nat option"

text \<open>
  The events of a run, in order: the bare \<^verbatim>\<open>exit\<close> expression is evaluated,
  \<^verbatim>\<open>sys.argv[1]\<close> is evaluated, \<^verbatim>\<open>open\<close> returns a file object or raises, a
  \<^verbatim>\<open>read\<close> returns so many bytes or raises, the file object is closed, \<^verbatim>\<open>print\<close>
  writes its line.
\<close>

datatype event =
  EvalExit | Argv1 | Open string | OpenError string exn
  | Read nat | ReadError | Close | Print

text \<open>\<^verbatim>\<open>sys.argv[1]\<close>: IndexError when the list has no element at index 1.\<close>

definition argv1 :: "string list \<Rightarrow> exn + string" where
  "argv1 xs = (if 1 < length xs then Inr (xs ! 1) else Inl IndexError)"

text \<open>\<^verbatim>\<open>open(path, "rb")\<close>: the call itself finds out whether the path can be read.\<close>

definition open_rb :: "(string \<Rightarrow> node option) \<Rightarrow> string \<Rightarrow> exn + fileobj" where
  "open_rb files path =
     (case files path of
        None \<Rightarrow> Inl FileNotFoundError
      | Some Directory \<Rightarrow> Inl IsADirectoryError
      | Some Unreadable \<Rightarrow> Inl PermissionError
      | Some (Regular bs k) \<Rightarrow> Inr \<lparr>unread = bs, faults = k\<rparr>)"

text \<open>\<^verbatim>\<open>f.read(n)\<close>: the next \<open>n\<close> bytes, fewer at the end of the file, none after it.\<close>

definition read_file :: "fileobj \<Rightarrow> nat \<Rightarrow> exn + (byte list \<times> fileobj)" where
  "read_file f n =
     (case faults f of
        None \<Rightarrow> Inr (take n (unread f), f\<lparr>unread := drop n (unread f)\<rparr>)
      | Some k \<Rightarrow>
          if k = 0 then Inl OSError
          else Inr (take n (unread f), \<lparr>unread = drop n (unread f), faults = Some (k - 1)\<rparr>))"

text \<open>
  \<^verbatim>\<open>for chunk in iter(lambda: f.read(4096), b""): hash_md5.update(chunk)\<close>
  The loop calls \<^verbatim>\<open>read\<close> until it returns the empty bytes object; that last result
  is the sentinel and is not fed to the accumulator. A loop has no bound of its own, so
  it is a partial function: \<open>None\<close> would be a loop that never ends.
\<close>

partial_function (option) read_loop ::
  "nat \<Rightarrow> fileobj \<Rightarrow> md5_ctx \<Rightarrow> event list \<Rightarrow> ((exn + md5_ctx) \<times> event list) option" where
  "read_loop n f hash_md5 t =
     (case read_file f n of
        Inl e \<Rightarrow> Some (Inl e, t @ [ReadError])
      | Inr (chunk, f') \<Rightarrow>
          if chunk = [] then Some (Inr hash_md5, t @ [Read 0])
          else read_loop n f' (md5_update hash_md5 chunk) (t @ [Read (length chunk)]))"

text \<open>
  \<^verbatim>\<open>def md5(fname)\<close>. The parameter is not used: the file opened is
  \<^verbatim>\<open>sys.argv[1]\<close>. The \<^verbatim>\<open>with\<close> statement closes the file object when its body
  ends, by exhaustion of the loop or by an exception, which then goes on to the caller.
\<close>

definition md5 :: "string \<Rightarrow> proc \<Rightarrow> ((exn + string) \<times> event list) option" where
  "md5 fname w =
     (let hash_md5 = md5_new in
      case argv1 (argv w) of
        Inl e \<Rightarrow> Some (Inl e, [Argv1])
      | Inr path \<Rightarrow>
          (case open_rb (fs w) path of
             Inl e \<Rightarrow> Some (Inl e, [Argv1, OpenError path e])
           | Inr f \<Rightarrow>
               (case read_loop 4096 f hash_md5 [Argv1, Open path] of
                  None \<Rightarrow> None
                | Some (Inl e, t) \<Rightarrow> Some (Inl e, t @ [Close])
                | Some (Inr h, t) \<Rightarrow> Some (Inr (hexdigest h), t @ [Close]))))"

text \<open>
  The outcome of a run: what was written to standard output, the exceptions reported on
  the error stream (the traceback of an uncaught one, the report of one met while the
  interpreter ends), the exit status and the events. An uncaught exception ends the
  interpreter with a traceback and status 1.
\<close>

record run =
  stdout :: string
  stderr :: "exn list"
  status :: nat
  trace :: "event list"

definition uncaught :: "exn \<Rightarrow> event list \<Rightarrow> run" where
  "uncaught e t = \<lparr>stdout = [], stderr = [e], status = 1, trace = t\<rparr>"

text \<open>
  The module's top level:
  \<^verbatim>\<open>if len(sys.argv) != 1: exit\<close> and then \<^verbatim>\<open>print(md5(sys.argv[1]))\<close>.
  The body of the \<^verbatim>\<open>if\<close> is the name \<^verbatim>\<open>exit\<close> alone, an expression that is
  evaluated and dropped; nothing is called.
\<close>

text \<open>
  Standard output as the interpreter finds it. \<^verbatim>\<open>sys.stdout\<close> is \<^verbatim>\<open>None\<close> when the
  process was started with the descriptor closed. Otherwise it is a buffered text stream,
  line-buffered on a terminal (the flag), over a device that takes every byte or fails
  after a number of bytes (a full disk, a file size limit, a reader that went away).
\<close>

datatype sink = NoStdout | Stdout bool "nat option"

text \<open>
  \<^verbatim>\<open>print(line)\<close> as the last statement, and the end of the interpreter after it.
  With \<^verbatim>\<open>sys.stdout\<close> absent, \<^verbatim>\<open>print\<close> returns without writing and the status
  is 0. With a device that takes the whole line, the line is written and the status is 0.
  With a device that fails before the end of the line, the bytes it took stay written;
  the failure is reported on the error stream when the interpreter flushes the stream at
  its end (and, on a line-buffered stream, first as an exception out of \<^verbatim>\<open>print\<close>),
  and the status is 120.
\<close>

definition print_and_exit :: "sink \<Rightarrow> string \<Rightarrow> event list \<Rightarrow> run" where
  "print_and_exit s line t =
     (case s of
        NoStdout \<Rightarrow> \<lparr>stdout = [], stderr = [], status = 0, trace = t @ [Print]\<rparr>
      | Stdout tty limit \<Rightarrow>
          (case limit of
             None \<Rightarrow> \<lparr>stdout = line, stderr = [], status = 0, trace = t @ [Print]\<rparr>
           | Some c \<Rightarrow>
               if length line \<le> c
               then \<lparr>stdout = line, stderr = [], status = 0, trace = t @ [Print]\<rparr>
               else \<lparr>stdout = take c line,
                     stderr = (if tty then [OSError, OSError] else [OSError]),
                     status = 120, trace = t @ [Print]\<rparr>))"

text \<open>
  The script run with a given standard output. An uncaught exception leaves nothing in
  the stream's buffer, so the state of standard output plays no part in that outcome.
\<close>

definition run_script :: "sink \<Rightarrow> proc \<Rightarrow> run option" where
  "run_script s w =
     (let t0 = (if length (argv w) \<noteq> 1 then [EvalExit] else []) in
      case argv1 (argv w) of
        Inl e \<Rightarrow> Some (uncaught e (t0 @ [Argv1]))
      | Inr path \<Rightarrow>
          (case md5 path w of
             None \<Rightarrow> None
           | Some (Inl e, t) \<Rightarrow> Some (uncaught e (t0 @ [Argv1] @ t))
           | Some (Inr digest, t) \<Rightarrow>
               Some (print_and_exit s (digest @ [CHR 0x0A]) (t0 @ [Argv1] @ t))))"

text \<open>The script run with a standard output that is open and takes every byte.\<close>

definition program :: "proc \<Rightarrow> run option" where
  "program w = run_script (Stdout False None) w"


section \<open>Properties of runs, as checks on the outcome\<close>

text \<open>
  The discipline of the file object over a trace, read from left to right with the number
  of file objects open so far: \<open>Open\<close> only when none is open, \<open>Read\<close>, \<open>ReadError\<close> and
  \<open>Close\<close> only when exactly one is open, and none open at the end.
\<close>

fun scoped :: "nat \<Rightarrow> event list \<Rightarrow> bool" where
  "scoped k [] = (k = 0)"
| "scoped k (Open p # t) = (k = 0 \<and> scoped 1 t)"
| "scoped k (Close # t) = (k = 1 \<and> scoped 0 t)"
| "scoped k (Read m # t) = (k = 1 \<and> scoped k t)"
| "scoped k (ReadError # t) = (k = 1 \<and> scoped k t)"
| "scoped k (e # t) = scoped k t"

fun is_read :: "event \<Rightarrow> bool" where
  "is_read (Read m) = True"
| "is_read ReadError = True"
| "is_read e = False"

text \<open>Splitting a byte sequence into successive chunks of at most \<open>n\<close> bytes.\<close>

function split_chunks :: "nat \<Rightarrow> byte list \<Rightarrow> byte list list" where
  "split_chunks n bs =
     (if n = 0 \<or> bs = [] then [] else take n bs # split_chunks n (drop n bs))"
  by pat_completeness auto
termination
  by (relation "measure (\<lambda>(n, bs). length bs)") auto

declare split_chunks.simps [simp del]

definition is_hex_char :: "char \<Rightarrow> bool" where
  "is_hex_char c = (c \<in> set ''0123456789abcdef'')"

section \<open>The accumulator and the read loop\<close>

lemma md5_blocks_short: "length bs < 64 \<Longrightarrow> md5_blocks r bs = (r, bs)"
  by (subst md5_blocks.simps) simp

lemma md5_blocks_long:
  "64 \<le> length bs \<Longrightarrow>
   md5_blocks r bs = md5_blocks (md5_transform r (take 64 bs)) (drop 64 bs)"
  by (subst md5_blocks.simps) simp

lemma md5_blocks_append:
  "md5_blocks r (xs @ ys) = (case md5_blocks r xs of (r', rest) \<Rightarrow> md5_blocks r' (rest @ ys))"
proof (induction r xs rule: md5_blocks.induct)
  case (1 r bs)
  show ?case
  proof (cases "length bs < 64")
    case True
    then show ?thesis by (simp add: md5_blocks_short)
  next
    case False
    then have long: "64 \<le> length bs" by simp
    then have "md5_blocks r (bs @ ys) =
                 md5_blocks (md5_transform r (take 64 bs)) (drop 64 bs @ ys)"
      by (simp add: md5_blocks_long)
    also have "\<dots> = (case md5_blocks (md5_transform r (take 64 bs)) (drop 64 bs) of
                        (r', rest) \<Rightarrow> md5_blocks r' (rest @ ys))"
      using False by (rule "1.IH")
    also have "md5_blocks (md5_transform r (take 64 bs)) (drop 64 bs) = md5_blocks r bs"
      using long by (simp add: md5_blocks_long)
    finally show ?thesis .
  qed
qed

lemma md5_blocks_rest: "length (snd (md5_blocks r bs)) < 64"
proof (induction r bs rule: md5_blocks.induct)
  case (1 r bs)
  show ?case
  proof (cases "length bs < 64")
    case True
    then show ?thesis by (simp add: md5_blocks_short)
  next
    case False
    with "1.IH" show ?thesis by (simp add: md5_blocks_long)
  qed
qed

lemma md5_update_append: "md5_update (md5_update h xs) ys = md5_update h (xs @ ys)"
proof -
  obtain r1 rest1 where 1: "md5_blocks (regs h) (buffer h @ xs) = (r1, rest1)"
    by (cases "md5_blocks (regs h) (buffer h @ xs)")
  obtain r2 rest2 where 2: "md5_blocks r1 (rest1 @ ys) = (r2, rest2)"
    by (cases "md5_blocks r1 (rest1 @ ys)")
  have "md5_blocks (regs h) (buffer h @ xs @ ys) = (r2, rest2)"
    using md5_blocks_append [of "regs h" "buffer h @ xs" ys] by (simp add: 1 2)
  then show ?thesis
    by (simp add: md5_update_def 1 2)
qed

lemma md5_update_buffer: "length (buffer (md5_update h xs)) < 64"
proof -
  obtain r1 rest1 where 1: "md5_blocks (regs h) (buffer h @ xs) = (r1, rest1)"
    by (cases "md5_blocks (regs h) (buffer h @ xs)")
  with md5_blocks_rest [of "regs h" "buffer h @ xs"] show ?thesis
    by (simp add: md5_update_def)
qed

lemma md5_update_Nil: "length (buffer h) < 64 \<Longrightarrow> md5_update h [] = h"
  by (simp add: md5_update_def md5_blocks_short)


lemma split_chunks_stop: "n = 0 \<or> bs = [] \<Longrightarrow> split_chunks n bs = []"
  by (subst split_chunks.simps) simp

lemma split_chunks_step:
  "0 < n \<Longrightarrow> bs \<noteq> [] \<Longrightarrow> split_chunks n bs = take n bs # split_chunks n (drop n bs)"
  by (subst split_chunks.simps) simp

lemma concat_split_chunks: "0 < n \<Longrightarrow> concat (split_chunks n bs) = bs"
proof (induction n bs rule: split_chunks.induct)
  case (1 n bs)
  show ?case
  proof (cases "bs = []")
    case True
    then show ?thesis by (simp add: split_chunks_stop)
  next
    case False
    with "1.prems" "1.IH" show ?thesis by (simp add: split_chunks_step)
  qed
qed

lemma split_chunks_nonempty: "[] \<notin> set (split_chunks n bs)"
proof (induction n bs rule: split_chunks.induct)
  case (1 n bs)
  show ?case
  proof (cases "n = 0 \<or> bs = []")
    case True
    then show ?thesis by (simp add: split_chunks_stop)
  next
    case False
    with "1.IH" show ?thesis by (simp add: split_chunks_step)
  qed
qed

lemma fold_md5_update:
  "length (buffer h) < 64 \<Longrightarrow>
   fold (\<lambda>chunk a. md5_update a chunk) cs h = md5_update h (concat cs)"
proof (induction cs arbitrary: h)
  case Nil
  then show ?case by (simp add: md5_update_Nil)
next
  case (Cons c cs)
  have "fold (\<lambda>chunk a. md5_update a chunk) (c # cs) h =
          fold (\<lambda>chunk a. md5_update a chunk) cs (md5_update h c)"
    by simp
  also have "\<dots> = md5_update (md5_update h c) (concat cs)"
    by (rule Cons.IH) (rule md5_update_buffer)
  finally show ?case by (simp add: md5_update_append)
qed

lemma read_file_faultless:
  "faults f = None \<Longrightarrow> read_file f n = Inr (take n (unread f), f\<lparr>unread := drop n (unread f)\<rparr>)"
  by (simp add: read_file_def)

lemma read_loop_faultless:
  "faults f = None \<Longrightarrow> 0 < n \<Longrightarrow>
   read_loop n f h t =
     Some (Inr (fold (\<lambda>chunk a. md5_update a chunk) (split_chunks n (unread f)) h),
           t @ map (\<lambda>chunk. Read (length chunk)) (split_chunks n (unread f)) @ [Read 0])"
proof (induction "length (unread f)" arbitrary: f h t rule: less_induct)
  case less
  show ?case
  proof (cases "unread f = []")
    case True
    then show ?thesis
      using less.prems
      by (subst read_loop.simps) (simp add: read_file_faultless split_chunks_stop)
  next
    case False
    let ?f' = "f\<lparr>unread := drop n (unread f)\<rparr>"
    have shorter: "length (unread ?f') < length (unread f)"
      using False less.prems by simp
    have chunk: "take n (unread f) \<noteq> []"
      using False less.prems by simp
    have "read_loop n f h t =
            read_loop n ?f' (md5_update h (take n (unread f)))
              (t @ [Read (length (take n (unread f)))])"
      using chunk less.prems by (subst read_loop.simps) (simp add: read_file_faultless)
    also have "\<dots> =
        Some (Inr (fold (\<lambda>chunk a. md5_update a chunk) (split_chunks n (unread ?f'))
                     (md5_update h (take n (unread f)))),
              (t @ [Read (length (take n (unread f)))]) @
              map (\<lambda>chunk. Read (length chunk)) (split_chunks n (unread ?f')) @ [Read 0])"
      using shorter less.prems by (intro less.hyps) simp_all
    finally show ?thesis
      using False less.prems by (simp add: split_chunks_step [of n "unread f"])
  qed
qed

lemma read_loop_returns:
  "\<exists>r rs. read_loop n f h t = Some (r, t @ rs) \<and> list_all is_read rs \<and> rs \<noteq> [] \<and>
          (case r of Inl e \<Rightarrow> e = OSError \<and> faults f \<noteq> None \<and> last rs = ReadError
                   | Inr h' \<Rightarrow> last rs = Read 0)"
proof (induction "length (unread f)" arbitrary: f h t rule: less_induct)
  case less
  show ?case
  proof (cases "read_file f n")
    case (Inl e)
    then have "e = OSError" "faults f \<noteq> None"
      by (auto simp: read_file_def split: option.splits if_splits)
    with Inl show ?thesis
      by (subst read_loop.simps) simp
  next
    case (Inr p)
    obtain chunk f' where p: "p = (chunk, f')" by (cases p)
    have chunk_eq: "chunk = take n (unread f)" and f'_eq: "unread f' = drop n (unread f)"
      using Inr p by (auto simp: read_file_def split: option.splits if_splits)
    show ?thesis
    proof (cases "chunk = []")
      case True
      with Inr p show ?thesis
        by (subst read_loop.simps) simp
    next
      case False
      with chunk_eq f'_eq have "length (unread f') < length (unread f)"
        by (cases n) auto
      from less.hyps [OF this, of "md5_update h chunk" "t @ [Read (length chunk)]"]
      obtain r rs where
        rec: "read_loop n f' (md5_update h chunk) (t @ [Read (length chunk)]) =
                Some (r, (t @ [Read (length chunk)]) @ rs)"
        and rs: "list_all is_read rs" "rs \<noteq> []"
        and r: "case r of Inl e \<Rightarrow> e = OSError \<and> faults f' \<noteq> None \<and> last rs = ReadError
                        | Inr h' \<Rightarrow> last rs = Read 0"
        by blast
      have f'_faults: "faults f' \<noteq> None \<Longrightarrow> faults f \<noteq> None"
        using Inr p by (auto simp: read_file_def split: option.splits if_splits)
      have "read_loop n f h t = Some (r, t @ (Read (length chunk) # rs))"
        using Inr p False rec by (subst read_loop.simps) simp
      moreover have "list_all is_read (Read (length chunk) # rs)"
        using rs by simp
      moreover have "case r of
                       Inl e \<Rightarrow> e = OSError \<and> faults f \<noteq> None \<and>
                                last (Read (length chunk) # rs) = ReadError
                     | Inr h' \<Rightarrow> last (Read (length chunk) # rs) = Read 0"
        using r rs f'_faults by (cases r) auto
      ultimately show ?thesis by blast
    qed
  qed
qed

section \<open>Known digests, computed step by step\<close>

lemma p32: "(2::nat) ^ 32 = 4294967296"
  by simp

lemma upt16: "[0..<16] = [0, 1, 2, 3, 4, 5, 6, 7, 8, 9, 10, 11, 12, 13, 14, 15]"
  by (simp add: upt_rec)

lemma upt16_32: "[16..<32] = [16, 17, 18, 19, 20, 21, 22, 23, 24, 25, 26, 27, 28, 29, 30, 31]"
  by (simp add: upt_rec)

lemma upt32_48: "[32..<48] = [32, 33, 34, 35, 36, 37, 38, 39, 40, 41, 42, 43, 44, 45, 46, 47]"
  by (simp add: upt_rec)

lemma upt48_64: "[48..<64] = [48, 49, 50, 51, 52, 53, 54, 55, 56, 57, 58, 59, 60, 61, 62, 63]"
  by (simp add: upt_rec)

lemma upt64: "[0..<64] = [0..<16] @ [16..<32] @ [32..<48] @ [48..<64]"
  by (simp add: upt_rec)

lemma md5_blocks_single:
  "length block = 64 \<Longrightarrow> md5_blocks r block = (md5_transform r block, [])"
  by (subst md5_blocks.simps) (simp add: md5_blocks_short)

lemmas md5_eval =
  md5_transform_def decode_def upt64 upt16 upt16_32 upt32_48 upt48_64 round_fn_def msg_index_def
  md5_F_def md5_G_def md5_H_def md5_I_def add32_def not32_def rotl32_def
  md5_T_def md5_S_def p32

lemma zeros_empty: "replicate 55 (0::byte) = [0, 0, 0, 0, 0, 0, 0, 0, 0, 0, 0, 0, 0, 0, 0, 0, 0, 0, 0, 0, 0, 0, 0, 0, 0, 0, 0, 0, 0, 0, 0, 0, 0, 0, 0, 0, 0, 0, 0, 0, 0, 0, 0, 0, 0, 0, 0, 0, 0, 0, 0, 0, 0, 0, 0]"
  by (simp add: numeral_eq_Suc)

lemma padding_empty: "md5_padding 0 = [128, 0, 0, 0, 0, 0, 0, 0, 0, 0, 0, 0, 0, 0, 0, 0, 0, 0, 0, 0, 0, 0, 0, 0, 0, 0, 0, 0, 0, 0, 0, 0, 0, 0, 0, 0, 0, 0, 0, 0, 0, 0, 0, 0, 0, 0, 0, 0, 0, 0, 0, 0, 0, 0, 0, 0, 0, 0, 0, 0, 0, 0, 0, 0]"
  by (simp add: md5_padding_def le64_bytes_def le32_bytes_def zeros_empty p32)

lemma transform_empty:
  "md5_transform (0x67452301, 0xefcdab89, 0x98badcfe, 0x10325476)
     [128, 0, 0, 0, 0, 0, 0, 0, 0, 0, 0, 0, 0, 0, 0, 0, 0, 0, 0, 0, 0, 0, 0, 0, 0, 0, 0, 0, 0, 0, 0, 0, 0, 0, 0, 0, 0, 0, 0, 0, 0, 0, 0, 0, 0, 0, 0, 0, 0, 0, 0, 0, 0, 0, 0, 0, 0, 0, 0, 0, 0, 0, 0, 0] =
   (3649838548, 78774415, 2550759657, 2118318316)"
  by (simp add: md5_eval)

lemma digest_empty:
  "md5_digest md5_new =
     [212, 29, 140, 217, 143, 0, 178, 4, 233, 128, 9, 152, 236, 248, 66, 126]"
  by (simp add: md5_digest_def md5_new_def padding_empty md5_blocks_single transform_empty le32_bytes_def)

lemma hexdigest_empty: "hexdigest md5_new = ''d41d8cd98f00b204e9800998ecf8427e''"
  by (simp add: hexdigest_def digest_empty hex_byte_def hex_digit_def)

lemma zeros_abc: "replicate 52 (0::byte) = [0, 0, 0, 0, 0, 0, 0, 0, 0, 0, 0, 0, 0, 0, 0, 0, 0, 0, 0, 0, 0, 0, 0, 0, 0, 0, 0, 0, 0, 0, 0, 0, 0, 0, 0, 0, 0, 0, 0, 0, 0, 0, 0, 0, 0, 0, 0, 0, 0, 0, 0, 0]"
  by (simp add: numeral_eq_Suc)

lemma padding_abc: "md5_padding 3 = [128, 0, 0, 0, 0, 0, 0, 0, 0, 0, 0, 0, 0, 0, 0, 0, 0, 0, 0, 0, 0, 0, 0, 0, 0, 0, 0, 0, 0, 0, 0, 0, 0, 0, 0, 0, 0, 0, 0, 0, 0, 0, 0, 0, 0, 0, 0, 0, 0, 0, 0, 0, 0, 24, 0, 0, 0, 0, 0, 0, 0]"
  by (simp add: md5_padding_def le64_bytes_def le32_bytes_def zeros_abc p32)

lemma transform_abc:
  "md5_transform (0x67452301, 0xefcdab89, 0x98badcfe, 0x10325476)
     [97, 98, 99, 128, 0, 0, 0, 0, 0, 0, 0, 0, 0, 0, 0, 0, 0, 0, 0, 0, 0, 0, 0, 0, 0, 0, 0, 0, 0, 0, 0, 0, 0, 0, 0, 0, 0, 0, 0, 0, 0, 0, 0, 0, 0, 0, 0, 0, 0, 0, 0, 0, 0, 0, 0, 0, 24, 0, 0, 0, 0, 0, 0, 0] =
   (2555380112, 2958021180, 2101319382, 1920983336)"
  by (simp add: md5_eval)

lemma update_abc:
  "md5_update md5_new [97, 98, 99] =
     \<lparr>regs = (0x67452301, 0xefcdab89, 0x98badcfe, 0x10325476), buffer = [97, 98, 99], nbytes = 3\<rparr>"
  by (simp add: md5_update_def md5_new_def md5_blocks_short)

lemma digest_abc:
  "md5_digest (md5_update md5_new [97, 98, 99]) =
     [144, 1, 80, 152, 60, 210, 79, 176, 214, 150, 63, 125, 40, 225, 127, 114]"
  by (simp add: update_abc md5_digest_def padding_abc md5_blocks_single transform_abc le32_bytes_def)

lemma hexdigest_abc: "hexdigest (md5_update md5_new [97, 98, 99]) = ''900150983cd24fb0d6963f7d28e17f72''"
  by (simp add: hexdigest_def digest_abc hex_byte_def hex_digit_def)

section \<open>The shape of a hexadecimal digest\<close>

lemma hex_digit_char: "n < 16 \<Longrightarrow> is_hex_char (hex_digit n)"
proof -
  assume "n < 16"
  then have "n < length ''0123456789abcdef''" by simp
  then have "''0123456789abcdef'' ! n \<in> set ''0123456789abcdef''" by (rule nth_mem)
  then show ?thesis by (simp only: is_hex_char_def hex_digit_def)
qed

lemma unat_byte: "unat (b :: byte) < 256"
  using unsigned_less [of b, where ?'a = nat] by simp

lemma hex_byte_chars: "list_all is_hex_char (hex_byte b)"
proof -
  have "unat b div 16 < 16" using unat_byte [of b] by simp
  moreover have "unat b mod 16 < 16" by simp
  ultimately show ?thesis by (simp add: hex_byte_def hex_digit_char)
qed

lemma hex_bytes_length: "length (concat (map hex_byte bs)) = 2 * length bs"
  by (induction bs) (simp_all add: hex_byte_def)

lemma hex_bytes_chars: "list_all is_hex_char (concat (map hex_byte bs))"
  by (induction bs) (simp_all add: hex_byte_chars)

lemma md5_digest_length: "length (md5_digest h) = 16"
proof -
  obtain r rest where "md5_blocks (regs h) (buffer h @ md5_padding (nbytes h)) = (r, rest)"
    by (cases "md5_blocks (regs h) (buffer h @ md5_padding (nbytes h))")
  moreover obtain a b c d where "r = (a, b, c, d)"
    by (cases r)
  ultimately show ?thesis by (simp add: md5_digest_def le32_bytes_def)
qed

lemma hexdigest_length: "length (hexdigest h) = 32"
  by (simp add: hexdigest_def hex_bytes_length md5_digest_length)

lemma hexdigest_chars: "list_all is_hex_char (hexdigest h)"
  by (simp add: hexdigest_def hex_bytes_chars)




section \<open>The function \<open>md5\<close> and the program, path by path\<close>

lemma md5_no_argument:
  "argv1 (argv w) = Inl e \<Longrightarrow> md5 fname w = Some (Inl e, [Argv1])"
  by (simp add: md5_def)

lemma md5_open_fails:
  "argv1 (argv w) = Inr path \<Longrightarrow> open_rb (fs w) path = Inl e \<Longrightarrow>
   md5 fname w = Some (Inl e, [Argv1, OpenError path e])"
  by (simp add: md5_def)

lemma md5_opened:
  assumes "argv1 (argv w) = Inr path" and "open_rb (fs w) path = Inr f"
  shows "\<exists>r rs. md5 fname w = Some (r, [Argv1, Open path] @ rs @ [Close]) \<and>
                list_all is_read rs"
proof -
  obtain r rs where
    loop: "read_loop 4096 f md5_new [Argv1, Open path] = Some (r, [Argv1, Open path] @ rs)"
    and rs: "list_all is_read rs"
    using read_loop_returns [of 4096 f md5_new "[Argv1, Open path]"] by blast
  show ?thesis
  proof (cases r)
    case (Inl e)
    with assms loop have "md5 fname w = Some (Inl e, [Argv1, Open path] @ rs @ [Close])"
      by (simp add: md5_def)
    with rs show ?thesis by blast
  next
    case (Inr h)
    with assms loop
    have "md5 fname w = Some (Inr (hexdigest h), [Argv1, Open path] @ rs @ [Close])"
      by (simp add: md5_def)
    with rs show ?thesis by blast
  qed
qed

lemma md5_regular:
  assumes "argv1 (argv w) = Inr path" and "fs w path = Some (Regular bs None)"
  shows "md5 fname w =
           Some (Inr (hexdigest (md5_update md5_new bs)),
                 [Argv1, Open path] @
                 map (\<lambda>chunk. Read (length chunk)) (split_chunks 4096 bs) @ [Read 0, Close])"
proof -
  have opened: "open_rb (fs w) path = Inr \<lparr>unread = bs, faults = None\<rparr>"
    using assms(2) by (simp add: open_rb_def)
  have fresh: "length (buffer md5_new) < 64"
    by (simp add: md5_new_def)
  have "fold (\<lambda>chunk a. md5_update a chunk) (split_chunks 4096 bs) md5_new =
          md5_update md5_new (concat (split_chunks 4096 bs))"
    using fresh by (rule fold_md5_update)
  then have acc: "fold (\<lambda>chunk a. md5_update a chunk) (split_chunks 4096 bs) md5_new =
                    md5_update md5_new bs"
    by (simp add: concat_split_chunks)
  have "read_loop 4096 \<lparr>unread = bs, faults = None\<rparr> md5_new [Argv1, Open path] =
          Some (Inr (md5_update md5_new bs),
                [Argv1, Open path] @
                map (\<lambda>chunk. Read (length chunk)) (split_chunks 4096 bs) @ [Read 0])"
    using read_loop_faultless [of "\<lparr>unread = bs, faults = None\<rparr>" 4096 md5_new
        "[Argv1, Open path]"]
    by (simp add: acc)
  with assms(1) opened show ?thesis
    by (simp add: md5_def)
qed

lemma md5_returns: "\<exists>r t. md5 fname w = Some (r, t)"
proof (cases "argv1 (argv w)")
  case (Inl e)
  then show ?thesis by (simp add: md5_no_argument)
next
  case (Inr path)
  show ?thesis
  proof (cases "open_rb (fs w) path")
    case (Inl e)
    with Inr show ?thesis by (simp add: md5_open_fails)
  next
    case (Inr f)
    with \<open>argv1 (argv w) = Inr path\<close> md5_opened [of w path f fname] show ?thesis
      by blast
  qed
qed

lemma scoped_reads: "list_all is_read rs \<Longrightarrow> scoped (Suc 0) (rs @ t) = scoped (Suc 0) t"
proof (induction rs)
  case Nil
  then show ?case by simp
next
  case (Cons e rs)
  then show ?case by (cases e) simp_all
qed

lemma open_rb_unopenable:
  assumes "\<forall>bs k. files path \<noteq> Some (Regular bs k)"
  shows "\<exists>e. open_rb files path = Inl e"
proof (cases "files path")
  case None
  then show ?thesis by (simp add: open_rb_def)
next
  case (Some nd)
  with assms show ?thesis by (cases nd) (simp_all add: open_rb_def)
qed

lemma script_success:
  "argv1 (argv w) = Inr path \<Longrightarrow> md5 path w = Some (Inr d, t) \<Longrightarrow>
   run_script s w =
     Some (print_and_exit s (d @ [CHR 0x0A])
             ((if length (argv w) \<noteq> 1 then [EvalExit] else []) @ [Argv1] @ t))"
  by (simp add: run_script_def)

lemma script_failure:
  "argv1 (argv w) = Inr path \<Longrightarrow> md5 path w = Some (Inl e, t) \<Longrightarrow>
   run_script s w = Some (uncaught e ((if length (argv w) \<noteq> 1 then [EvalExit] else []) @
                                 [Argv1] @ t))"
  by (simp add: run_script_def)

lemma script_no_argument:
  "argv1 (argv w) = Inl e \<Longrightarrow>
   run_script s w = Some (uncaught e ((if length (argv w) \<noteq> 1 then [EvalExit] else []) @
                                 [Argv1]))"
  by (simp add: run_script_def)

lemma md5_result_is_hexdigest:
  assumes "md5 fname w = Some (Inr d, t)"
  shows "\<exists>h. d = hexdigest h"
proof (cases "argv1 (argv w)")
  case (Inl e)
  with assms show ?thesis by (simp add: md5_no_argument)
next
  case (Inr path)
  show ?thesis
  proof (cases "open_rb (fs w) path")
    case (Inl e)
    with Inr assms show ?thesis by (simp add: md5_open_fails)
  next
    case f: (Inr f)
    with Inr assms show ?thesis
      by (auto simp: md5_def split: option.splits sum.splits)
  qed
qed

lemma script_outcome:
  "\<exists>r. run_script s w = Some r \<and>
        ((\<exists>h t. r = print_and_exit s (hexdigest h @ [CHR 0x0A]) t) \<or>
         (\<exists>e. stdout r = [] \<and> stderr r = [e] \<and> status r = 1))"
proof (cases "argv1 (argv w)")
  case (Inl e)
  then show ?thesis by (simp add: script_no_argument uncaught_def)
next
  case (Inr path)
  obtain r t where ret: "md5 path w = Some (r, t)"
    using md5_returns by blast
  show ?thesis
  proof (cases r)
    case (Inl e)
    with Inr ret show ?thesis by (simp add: script_failure uncaught_def)
  next
    case r: (Inr d)
    with ret obtain h where "d = hexdigest h"
      using md5_result_is_hexdigest by blast
    with Inr ret r script_success [of w path d t s] show ?thesis
      by blast
  qed
qed

lemma script_regular:
  assumes "1 < length (argv w)" and "fs w (argv w ! 1) = Some (Regular bs None)"
  shows "run_script s w =
           Some (print_and_exit s (hexdigest (md5_update md5_new bs) @ [CHR 0x0A])
                   ([EvalExit, Argv1, Argv1, Open (argv w ! 1)] @
                    map (\<lambda>chunk. Read (length chunk)) (split_chunks 4096 bs) @
                    [Read 0, Close]))"
proof -
  have arg: "argv1 (argv w) = Inr (argv w ! 1)"
    using assms(1) by (simp add: argv1_def)
  from md5_regular [OF arg assms(2), of "argv w ! 1"] script_success [OF arg, of _ _ s] assms(1)
  show ?thesis by simp
qed



lemma program_success:
  "argv1 (argv w) = Inr path \<Longrightarrow> md5 path w = Some (Inr d, t) \<Longrightarrow>
   program w = Some \<lparr>stdout = d @ [CHR 0x0A], stderr = [], status = 0,
                     trace = (if length (argv w) \<noteq> 1 then [EvalExit] else []) @
                             [Argv1] @ t @ [Print]\<rparr>"
  by (simp add: program_def run_script_def print_and_exit_def)

lemma program_failure:
  "argv1 (argv w) = Inr path \<Longrightarrow> md5 path w = Some (Inl e, t) \<Longrightarrow>
   program w = Some (uncaught e ((if length (argv w) \<noteq> 1 then [EvalExit] else []) @
                                [Argv1] @ t))"
  by (simp add: program_def run_script_def)

lemma program_no_argument:
  "argv1 (argv w) = Inl e \<Longrightarrow>
   program w = Some (uncaught e ((if length (argv w) \<noteq> 1 then [EvalExit] else []) @
                                [Argv1]))"
  by (simp add: program_def run_script_def)

text \<open>A run that ends by an uncaught exception is the same for every standard output.\<close>

lemma script_crash_any_sink:
  assumes "program w = Some r" and "status r = 1"
  shows "run_script s w = Some r"
proof (cases "argv1 (argv w)")
  case (Inl e)
  with assms(1) show ?thesis
    by (simp add: program_no_argument script_no_argument)
next
  case (Inr path)
  obtain x t where ret: "md5 path w = Some (x, t)"
    using md5_returns by blast
  show ?thesis
  proof (cases x)
    case (Inl e)
    with Inr ret assms(1) show ?thesis
      by (simp add: program_failure script_failure)
  next
    case x: (Inr d)
    with Inr ret assms show ?thesis
      by (auto simp: program_success)
  qed
qed

lemma program_outcome:
  "\<exists>r. program w = Some r \<and>
        ((\<exists>h. stdout r = hexdigest h @ [CHR 0x0A] \<and> stderr r = [] \<and> status r = 0) \<or>
         (\<exists>e. stdout r = [] \<and> stderr r = [e] \<and> status r = 1))"
proof (cases "argv1 (argv w)")
  case (Inl e)
  then show ?thesis by (simp add: program_no_argument uncaught_def)
next
  case (Inr path)
  obtain r t where ret: "md5 path w = Some (r, t)"
    using md5_returns by blast
  show ?thesis
  proof (cases r)
    case (Inl e)
    with Inr ret show ?thesis by (simp add: program_failure uncaught_def)
  next
    case r: (Inr d)
    have "\<exists>h. d = hexdigest h"
    proof (cases "open_rb (fs w) path")
      case (Inl e)
      with Inr ret r show ?thesis by (simp add: md5_open_fails)
    next
      case f: (Inr f)
      with Inr ret r show ?thesis
        by (auto simp: md5_def split: option.splits sum.splits)
    qed
    with Inr ret r show ?thesis by (auto simp: program_success)
  qed
qed

lemma program_regular:
  assumes "1 < length (argv w)" and "fs w (argv w ! 1) = Some (Regular bs None)"
  shows "program w =
           Some \<lparr>stdout = hexdigest (md5_update md5_new bs) @ [CHR 0x0A], stderr = [],
                 status = 0,
                 trace = [EvalExit, Argv1, Argv1, Open (argv w ! 1)] @
                         map (\<lambda>chunk. Read (length chunk)) (split_chunks 4096 bs) @
                         [Read 0, Close, Print]\<rparr>"
proof -
  have arg: "argv1 (argv w) = Inr (argv w ! 1)"
    using assms(1) by (simp add: argv1_def)
  from md5_regular [OF arg assms(2), of "argv w ! 1"] program_success [OF arg] assms(1)
  show ?thesis by simp
qed

lemma split_chunks_abc: "split_chunks 4096 [97, 98, 99] = [97, 98, 99] # []"
  by (simp add: split_chunks_step split_chunks_stop)

section \<open>The claims\<close>

text \<open>
  C1 (the code departs from the claim). The claim: \<open>md5(path)\<close> returns the MD5 digest of
  the bytes of the file at the given path; the empty file gives
  \<open>d41d8cd98f00b204e9800998ecf8427e\<close> and the file \<open>abc\<close> gives
  \<open>900150983cd24fb0d6963f7d28e17f72\<close>. The function opens \<^verbatim>\<open>sys.argv[1]\<close>, not its
  parameter: called with the path of a file holding \<open>abc\<close> while \<^verbatim>\<open>sys.argv[1]\<close>
  names an empty file, it returns the digest of the empty file, although the digest of
  \<open>abc\<close> is the one the claim gives.
\<close>

theorem md5_digests_argv_not_fname_C1:
  "md5 ''a.bin''
     \<lparr>argv = [''md5.py'', ''b.bin''],
      fs = [''a.bin'' \<mapsto> Regular [97, 98, 99] None, ''b.bin'' \<mapsto> Regular [] None]\<rparr> =
     Some (Inr ''d41d8cd98f00b204e9800998ecf8427e'', [Argv1, Open ''b.bin'', Read 0, Close]) \<and>
   hexdigest (md5_update md5_new [97, 98, 99]) = ''900150983cd24fb0d6963f7d28e17f72''"
proof -
  let ?w = "\<lparr>argv = [''md5.py'', ''b.bin''],
             fs = [''a.bin'' \<mapsto> Regular [97, 98, 99] None, ''b.bin'' \<mapsto> Regular [] None]\<rparr>"
  have arg: "argv1 (argv ?w) = Inr ''b.bin''"
    by (simp add: argv1_def)
  have content: "fs ?w ''b.bin'' = Some (Regular [] None)"
    by simp
  have "md5_update md5_new [] = md5_new"
    by (rule md5_update_Nil) (simp add: md5_new_def)
  with md5_regular [OF arg content, of "''a.bin''"] show ?thesis
    by (simp add: split_chunks_stop hexdigest_empty hexdigest_abc)
qed

text \<open>
  C2. For every positive chunk size \<open>n\<close> and every content, feeding the successive
  chunks of the content to \<open>update\<close>, in order, leaves the accumulator in the state that
  one \<open>update\<close> with the whole content gives; the chunks are non-empty and their
  concatenation is the content; the read loop of the script, run with chunk size \<open>n\<close> on
  an open file with that content, ends in that same state after reading the chunks and a
  last empty result; and for any list of chunks whatever the state depends on their
  concatenation only. The states being equal, so are the digests.
\<close>

theorem chunk_framing_C2:
  "0 < n \<Longrightarrow>
   fold (\<lambda>chunk h. md5_update h chunk) (split_chunks n bs) md5_new = md5_update md5_new bs \<and>
   hexdigest (fold (\<lambda>chunk h. md5_update h chunk) (split_chunks n bs) md5_new) =
     hexdigest (md5_update md5_new bs) \<and>
   concat (split_chunks n bs) = bs \<and> [] \<notin> set (split_chunks n bs) \<and>
   read_loop n \<lparr>unread = bs, faults = None\<rparr> md5_new t =
     Some (Inr (md5_update md5_new bs),
           t @ map (\<lambda>chunk. Read (length chunk)) (split_chunks n bs) @ [Read 0]) \<and>
   (\<forall>cs. fold (\<lambda>chunk h. md5_update h chunk) cs md5_new = md5_update md5_new (concat cs))"
proof -
  assume n: "0 < n"
  have fresh: "length (buffer md5_new) < 64"
    by (simp add: md5_new_def)
  have any: "fold (\<lambda>chunk h. md5_update h chunk) cs md5_new = md5_update md5_new (concat cs)"
    for cs
    using fresh by (rule fold_md5_update)
  have whole: "fold (\<lambda>chunk h. md5_update h chunk) (split_chunks n bs) md5_new =
                 md5_update md5_new bs"
    using n by (simp add: any concat_split_chunks)
  have loop: "read_loop n \<lparr>unread = bs, faults = None\<rparr> md5_new t =
                Some (Inr (md5_update md5_new bs),
                      t @ map (\<lambda>chunk. Read (length chunk)) (split_chunks n bs) @ [Read 0])"
    using n read_loop_faultless [of "\<lparr>unread = bs, faults = None\<rparr>" n md5_new t]
    by (simp add: whole)
  from n whole loop any show ?thesis
    by (simp add: concat_split_chunks split_chunks_nonempty)
qed

theorem chunk_framing_C2_witness:
  "0 < (2::nat) \<and> split_chunks 2 [97, 98, 99] = [97, 98] # [99] # [] \<and>
   md5_update (md5_update md5_new [97, 98]) [99] = md5_update md5_new [97, 98, 99] \<and>
   read_loop 2 \<lparr>unread = [97, 98, 99], faults = None\<rparr> md5_new [] =
     Some (Inr (md5_update md5_new [97, 98, 99]), [Read 2, Read 1, Read 0])"
proof -
  have sc: "split_chunks 2 [97, 98, 99 :: byte] = [97, 98] # [99] # []"
    by (simp add: split_chunks_step split_chunks_stop)
  show ?thesis
    using chunk_framing_C2 [of 2 "[97, 98, 99]" "[]"] by (simp add: sc)
qed

text \<open>
  C3 (the code departs from the claim). The claim: without a path argument the program
  ends with a non-zero status and a usage message, never by an unhandled crash. Run with
  \<^verbatim>\<open>sys.argv = ["md5.py"]\<close>, the script reaches \<^verbatim>\<open>sys.argv[1]\<close>: the IndexError is
  not caught, its traceback is all that the error stream receives, and the status is 1.
\<close>

theorem missing_argument_crashes_C3:
  "program \<lparr>argv = [''md5.py''], fs = Map.empty\<rparr> =
     Some \<lparr>stdout = [], stderr = [IndexError], status = 1, trace = [Argv1]\<rparr>"
  by (simp add: program_def run_script_def argv1_def uncaught_def)

text \<open>
  C4 (amended). The claim: when the argument is absent, the bare \<^verbatim>\<open>exit\<close> expression
  is attempted first and \<^verbatim>\<open>sys.argv[1]\<close> is read afterwards. The expression stands
  under \<^verbatim>\<open>len(sys.argv) != 1\<close>, which is false for \<^verbatim>\<open>sys.argv = ["md5.py"]\<close>:
  there the expression is not evaluated at all. What holds: when \<^verbatim>\<open>sys.argv\<close> has
  no element at index 1, the \<^verbatim>\<open>if\<close> statement never ends the run (the expression is
  evaluated only if \<^verbatim>\<open>sys.argv\<close> is empty, and without effect), and the program goes
  on to read \<^verbatim>\<open>sys.argv[1]\<close>, which raises IndexError.
\<close>

theorem exit_not_attempted_C4_counterexample:
  "program \<lparr>argv = [''md5.py''], fs = Map.empty\<rparr> = Some (uncaught IndexError [Argv1]) \<and>
   EvalExit \<notin> set (trace (uncaught IndexError [Argv1]))"
  by (simp add: program_def run_script_def argv1_def uncaught_def)

theorem guard_never_exits_C4:
  "length (argv w) \<le> 1 \<Longrightarrow>
   program w =
     Some (uncaught IndexError
             ((if length (argv w) \<noteq> 1 then [EvalExit] else []) @ [Argv1])) \<and>
   (EvalExit \<in> set (trace (uncaught IndexError
             ((if length (argv w) \<noteq> 1 then [EvalExit] else []) @ [Argv1]))) = (argv w = []))"
proof -
  assume short: "length (argv w) \<le> 1"
  then have "argv1 (argv w) = Inl IndexError"
    by (simp add: argv1_def)
  then have "program w =
     Some (uncaught IndexError
             ((if length (argv w) \<noteq> 1 then [EvalExit] else []) @ [Argv1]))"
    by (rule program_no_argument)
  moreover have "length (argv w) \<noteq> 1 \<longleftrightarrow> argv w = []"
    using short by (cases "argv w") auto
  ultimately show ?thesis
    by (simp add: uncaught_def)
qed

theorem guard_never_exits_C4_witness:
  "length (argv \<lparr>argv = [], fs = Map.empty\<rparr>) \<le> 1 \<and>
   program \<lparr>argv = [], fs = Map.empty\<rparr> = Some (uncaught IndexError [EvalExit, Argv1])"
  using guard_never_exits_C4 [of "\<lparr>argv = [], fs = Map.empty\<rparr>"] by simp




text \<open>
  C6 (amended). The claim: on every successful invocation standard output is 32
  characters of \<open>0123456789abcdef\<close> followed by one newline, and nothing else. Started
  with standard output closed, the script ends with status 0 and nothing written. What
  holds: on a run that ends with status 0 while \<^verbatim>\<open>sys.stdout\<close> is present, standard
  output is 32 characters, each one of \<open>0123456789abcdef\<close>, followed by one newline, and
  nothing else.
\<close>

theorem silent_success_C6_counterexample:
  "run_script NoStdout
     \<lparr>argv = [''md5.py'', ''empty''], fs = [''empty'' \<mapsto> Regular [] None]\<rparr> =
     Some \<lparr>stdout = [], stderr = [], status = 0,
           trace = [EvalExit, Argv1, Argv1, Open ''empty'', Read 0, Close, Print]\<rparr>"
  using script_regular [of "\<lparr>argv = [''md5.py'', ''empty''],
                             fs = [''empty'' \<mapsto> Regular [] None]\<rparr>" "[]" NoStdout]
  by (simp add: split_chunks_stop print_and_exit_def)

theorem digest_line_C6:
  "run_script s w = Some r \<Longrightarrow> status r = 0 \<Longrightarrow> s \<noteq> NoStdout \<Longrightarrow>
   \<exists>d. stdout r = d @ [CHR 0x0A] \<and> length d = 32 \<and> list_all is_hex_char d"
proof -
  assume r: "run_script s w = Some r" and ok: "status r = 0" and present: "s \<noteq> NoStdout"
  have "(\<exists>h t. r = print_and_exit s (hexdigest h @ [CHR 0x0A]) t) \<or>
        (\<exists>e. stdout r = [] \<and> stderr r = [e] \<and> status r = 1)"
    using script_outcome [of s w] r by simp
  with ok obtain h t where printed: "r = print_and_exit s (hexdigest h @ [CHR 0x0A]) t"
    by auto
  obtain tty limit where s: "s = Stdout tty limit"
    using present by (cases s) auto
  have "stdout r = hexdigest h @ [CHR 0x0A]"
  proof (cases limit)
    case None
    with printed s show ?thesis by (simp add: print_and_exit_def)
  next
    case (Some c)
    with printed s ok show ?thesis
      by (simp add: print_and_exit_def split: if_splits)
  qed
  with hexdigest_length [of h] hexdigest_chars [of h] show ?thesis
    by blast
qed

theorem digest_line_C6_witness:
  "run_script (Stdout True None)
     \<lparr>argv = [''md5.py'', ''abc.txt''], fs = [''abc.txt'' \<mapsto> Regular [97, 98, 99] None]\<rparr> =
     Some \<lparr>stdout = ''900150983cd24fb0d6963f7d28e17f72'' @ [CHR 0x0A], stderr = [], status = 0,
           trace = [EvalExit, Argv1, Argv1, Open ''abc.txt'', Read 3, Read 0, Close, Print]\<rparr> \<and>
   (\<exists>d. ''900150983cd24fb0d6963f7d28e17f72'' @ [CHR 0x0A] = d @ [CHR 0x0A] \<and>
        length d = 32 \<and> list_all is_hex_char d)"
proof -
  let ?w = "\<lparr>argv = [''md5.py'', ''abc.txt''],
             fs = [''abc.txt'' \<mapsto> Regular [97, 98, 99] None]\<rparr>"
  let ?r = "\<lparr>stdout = ''900150983cd24fb0d6963f7d28e17f72'' @ [CHR 0x0A], stderr = [],
             status = 0,
             trace = [EvalExit, Argv1, Argv1, Open ''abc.txt'', Read 3, Read 0, Close, Print]\<rparr>"
  have run: "run_script (Stdout True None) ?w = Some ?r"
    using script_regular [of ?w "[97, 98, 99]" "Stdout True None"]
    by (simp add: split_chunks_abc hexdigest_abc print_and_exit_def)
  have "status ?r = 0"
    by simp
  with digest_line_C6 [OF run] run show ?thesis
    by simp
qed

text \<open>
  C7. When \<^verbatim>\<open>sys.argv[1]\<close> does not name a file that can be opened (nothing there, a
  directory, or no permission to read), the run ends with status 1 and nothing on
  standard output; the exception that \<^verbatim>\<open>open\<close> raised is reported on the error
  stream; and the \<^verbatim>\<open>open\<close> call is the first and only access to the file system.
\<close>

theorem unopenable_path_C7:
  "1 < length (argv w) \<Longrightarrow> \<forall>bs k. fs w (argv w ! 1) \<noteq> Some (Regular bs k) \<Longrightarrow>
   \<exists>e. open_rb (fs w) (argv w ! 1) = Inl e \<and>
       program w =
         Some \<lparr>stdout = [], stderr = [e], status = 1,
               trace = [EvalExit, Argv1, Argv1, OpenError (argv w ! 1) e]\<rparr>"
proof -
  assume len: "1 < length (argv w)"
    and closed: "\<forall>bs k. fs w (argv w ! 1) \<noteq> Some (Regular bs k)"
  have arg: "argv1 (argv w) = Inr (argv w ! 1)"
    using len by (simp add: argv1_def)
  obtain e where e: "open_rb (fs w) (argv w ! 1) = Inl e"
    using closed open_rb_unopenable [of "fs w" "argv w ! 1"] by blast
  from program_failure [OF arg md5_open_fails [OF arg e]] len
  have "program w =
          Some \<lparr>stdout = [], stderr = [e], status = 1,
                trace = [EvalExit, Argv1, Argv1, OpenError (argv w ! 1) e]\<rparr>"
    by (simp add: uncaught_def)
  with e show ?thesis
    by blast
qed

theorem unopenable_path_C7_witness:
  "1 < length (argv \<lparr>argv = [''md5.py'', ''dir''], fs = [''dir'' \<mapsto> Directory]\<rparr>) \<and>
   program \<lparr>argv = [''md5.py'', ''dir''], fs = [''dir'' \<mapsto> Directory]\<rparr> =
     Some \<lparr>stdout = [], stderr = [IsADirectoryError], status = 1,
           trace = [EvalExit, Argv1, Argv1, OpenError ''dir'' IsADirectoryError]\<rparr>"
  using unopenable_path_C7 [of "\<lparr>argv = [''md5.py'', ''dir''], fs = [''dir'' \<mapsto> Directory]\<rparr>"]
  by (simp add: open_rb_def)

text \<open>
  C8. Whatever the arguments and the file system, \<open>md5\<close> returns, and the events up to
  its return keep the discipline of \<open>scoped\<close>: a file object is opened only when none is
  open, it is read only while it is the one open, and none is open at the return. There
  are three shapes of trace: the file was opened, read (the last read giving the end of
  the file or failing) and closed as the last event before the return; or \<^verbatim>\<open>open\<close>
  raised and no file object ever existed; or \<^verbatim>\<open>sys.argv[1]\<close> raised before that.
\<close>

theorem file_closed_on_return_C8:
  "\<exists>r t. md5 fname w = Some (r, t) \<and> scoped 0 t \<and>
     ((\<exists>path rs. t = [Argv1, Open path] @ rs @ [Close] \<and> list_all is_read rs) \<or>
      (\<exists>path e. t = [Argv1, OpenError path e] \<and> r = Inl e) \<or>
      (t = [Argv1] \<and> r = Inl IndexError))"
proof (cases "argv1 (argv w)")
  case (Inl e)
  then have "e = IndexError"
    by (simp add: argv1_def split: if_splits)
  with Inl show ?thesis by (simp add: md5_no_argument)
next
  case (Inr path)
  show ?thesis
  proof (cases "open_rb (fs w) path")
    case (Inl e)
    with Inr show ?thesis by (simp add: md5_open_fails)
  next
    case f: (Inr f)
    obtain r rs where "md5 fname w = Some (r, [Argv1, Open path] @ rs @ [Close])"
      and "list_all is_read rs"
      using md5_opened [OF Inr f, of fname] by blast
    then show ?thesis by (simp add: scoped_reads)
  qed
qed

theorem file_closed_on_return_C8_witness:
  "md5 ''x'' \<lparr>argv = [''md5.py'', ''disk''], fs = [''disk'' \<mapsto> Regular [97, 98, 99] (Some 1)]\<rparr> =
     Some (Inl OSError, [Argv1, Open ''disk'', Read 3, ReadError, Close]) \<and>
   scoped 0 [Argv1, Open ''disk'', Read 3, ReadError, Close]"
proof -
  let ?w = "\<lparr>argv = [''md5.py'', ''disk''],
             fs = [''disk'' \<mapsto> Regular [97, 98, 99] (Some 1)]\<rparr>"
  have "read_loop 4096 \<lparr>unread = [97, 98, 99], faults = Some 1\<rparr> md5_new [Argv1, Open ''disk''] =
          read_loop 4096 \<lparr>unread = [], faults = Some 0\<rparr> (md5_update md5_new [97, 98, 99])
            [Argv1, Open ''disk'', Read 3]"
    by (subst read_loop.simps) (simp add: read_file_def numeral_3_eq_3)
  also have "\<dots> = Some (Inl OSError, [Argv1, Open ''disk'', Read 3, ReadError])"
    by (subst read_loop.simps) (simp add: read_file_def)
  finally have run: "md5 ''x'' ?w =
                       Some (Inl OSError, [Argv1, Open ''disk'', Read 3, ReadError, Close])"
    by (simp add: md5_def argv1_def open_rb_def)
  with file_closed_on_return_C8 [of "''x''" ?w] show ?thesis
    by simp
qed

text \<open>
  C9. The read loop ends for every open file, every chunk size and every accumulator: it
  returns after a read that gave no bytes, or after a read that failed. On a file object
  without a fault it returns an accumulator, and the last read is the one that gave no
  bytes. Hence \<open>md5\<close> returns and the program ends, for all arguments and file systems;
  and where \<^verbatim>\<open>sys.argv[1]\<close> names a regular file without a fault, \<open>md5\<close> returns
  the digest of the accumulator fed with the whole content.
\<close>

theorem read_loop_terminates_C9:
  "(\<exists>r rs. read_loop n f h t = Some (r, t @ rs) \<and> rs \<noteq> [] \<and>
           (case r of Inl e \<Rightarrow> e = OSError \<and> last rs = ReadError
                    | Inr h' \<Rightarrow> last rs = Read 0)) \<and>
   (\<exists>h' rs. read_loop n \<lparr>unread = bs, faults = None\<rparr> h t = Some (Inr h', t @ rs @ [Read 0]) \<and>
            list_all is_read rs) \<and>
   (\<exists>out. md5 fname w = Some out) \<and> (\<exists>r. program w = Some r) \<and>
   (\<exists>t'. md5 fname \<lparr>argv = script # path # args, fs = files(path \<mapsto> Regular bs None)\<rparr> =
           Some (Inr (hexdigest (md5_update md5_new bs)), t'))"
proof -
  have any: "\<exists>r rs. read_loop n f h t = Some (r, t @ rs) \<and> rs \<noteq> [] \<and>
           (case r of Inl e \<Rightarrow> e = OSError \<and> last rs = ReadError
                    | Inr h' \<Rightarrow> last rs = Read 0)"
  proof -
    obtain r rs where "read_loop n f h t = Some (r, t @ rs)" "rs \<noteq> []"
      and "case r of Inl e \<Rightarrow> e = OSError \<and> faults f \<noteq> None \<and> last rs = ReadError
                   | Inr h' \<Rightarrow> last rs = Read 0"
      using read_loop_returns [of n f h t] by blast
    then show ?thesis by (cases r) auto
  qed
  have sound: "\<exists>h' rs. read_loop n \<lparr>unread = bs, faults = None\<rparr> h t =
                         Some (Inr h', t @ rs @ [Read 0]) \<and> list_all is_read rs"
  proof -
    let ?f = "\<lparr>unread = bs, faults = None\<rparr>"
    obtain r rs where loop: "read_loop n ?f h t = Some (r, t @ rs)"
      and rs: "rs \<noteq> []" "list_all is_read rs"
      and r: "case r of Inl e \<Rightarrow> e = OSError \<and> faults ?f \<noteq> None \<and> last rs = ReadError
                      | Inr h' \<Rightarrow> last rs = Read 0"
      using read_loop_returns [of n ?f h t] by blast
    from r obtain h' where h': "r = Inr h'" and "last rs = Read 0"
      by (cases r) auto
    with rs have split: "rs = butlast rs @ [Read 0]"
      by (metis append_butlast_last_id)
    have "list_all is_read (butlast rs)"
      using rs by (auto simp: list_all_iff dest: in_set_butlastD)
    with loop h' split show ?thesis
      by metis
  qed
  have ret: "\<exists>out. md5 fname w = Some out"
    using md5_returns [of fname w] by blast
  have ends: "\<exists>r. program w = Some r"
    using program_outcome [of w] by blast
  have digest: "\<exists>t'. md5 fname \<lparr>argv = script # path # args,
                                  fs = files(path \<mapsto> Regular bs None)\<rparr> =
           Some (Inr (hexdigest (md5_update md5_new bs)), t')"
    using md5_regular [of "\<lparr>argv = script # path # args, fs = files(path \<mapsto> Regular bs None)\<rparr>"
        path bs fname]
    by (simp add: argv1_def)
  from any sound ret ends digest show ?thesis
    by blast
qed

text \<open>
  C10. The result of \<open>md5\<close> does not depend on its parameter: with the same arguments
  and file system, any two paths give the same result, since the file opened is
  \<^verbatim>\<open>sys.argv[1]\<close>.
\<close>

theorem md5_independent_of_fname_C10:
  "md5 p w = md5 q w"
  by (simp add: md5_def)

end
